theory Spec2Isabelle
  imports Main "HOL-Library.Word" "HOL-Library.Signed_Division"
begin

section \<open>Events, errors and observable effects\<close>

text \<open>
  The handler of \<^verbatim>\<open>pkg/handler/handler.go\<close> turns pod notifications into events, routes
  each event to one of \<^verbatim>\<open>ChannelSize\<close> channels, and runs one worker per channel that
  reconciles the event against the last event stored for the same pod address.

  The struct \<^verbatim>\<open>event\<close> is declared in another file of the package; the four fields below are
  the ones the handler reads and writes.
\<close>

record event =
  PodIP :: string
  ResourceVersion :: string
  AttachIP :: bool
  ShiedAdv :: bool

text \<open>
  A Go \<^verbatim>\<open>error\<close> value that is not nil. The handler meets two kinds: the accessor errors of
  \<^verbatim>\<open>unstructured.NestedString\<close> and whatever \<^verbatim>\<open>event.Process\<close> returns. Messages of accessor
  errors are not modelled.
\<close>

datatype error = AccessorError | ServiceError string

text \<open>
  What the handler does to the outside, in order: the records it writes through logrus
  (level and message; the structured fields of a record are left out) and the calls it makes
  to \<^verbatim>\<open>event.Process\<close>, each with the previous event passed (\<open>None\<close> for the nil pointer),
  the event processed and the error returned.
\<close>

datatype effect =
    LogInfo string
  | LogError error
  | ProcessCall "event option" event "error option"

text \<open>
  How a call ends: it returns a value in a new state, it panics, or it blocks on a channel
  operation in the state reached so far.
\<close>

datatype ('r, 's) outcome = Returns 'r 's | Panics | Blocks 's

section \<open>Unstructured objects and their accessors\<close>

text \<open>
  The content of an \<^verbatim>\<open>unstructured.Unstructured\<close>: the values a decoded JSON document holds
  behind \<^verbatim>\<open>interface{}\<close>. A map is a list of bindings read with \<open>map_of\<close>. Numbers stand for
  both \<^verbatim>\<open>int64\<close> and \<^verbatim>\<open>float64\<close>: the accessors used here only ask whether a value is a
  string or a map.
\<close>

datatype json =
    JNil
  | JBool bool
  | JNumber int
  | JString string
  | JSlice "json list"
  | JMap "(string \<times> json) list"

record Unstructured =
  Object :: "(string \<times> json) list"

text \<open>
  \<^verbatim>\<open>NestedFieldNoCopy\<close> walks the field path. The result is the triple (value, found, err)
  of the Go function, with the nil value written \<open>JNil\<close>.
\<close>

fun NestedFieldNoCopy :: "json \<Rightarrow> string list \<Rightarrow> json \<times> bool \<times> error option" where
  "NestedFieldNoCopy val [] = (val, True, None)"
| "NestedFieldNoCopy JNil (field # rest) = (JNil, False, None)"
| "NestedFieldNoCopy (JMap m) (field # rest) =
     (case map_of m field of
        None \<Rightarrow> (JNil, False, None)
      | Some v \<Rightarrow> NestedFieldNoCopy v rest)"
| "NestedFieldNoCopy val (field # rest) = (JNil, False, Some AccessorError)"

text \<open>\<^verbatim>\<open>NestedString\<close>: the triple (string, found, err).\<close>

definition NestedString :: "(string \<times> json) list \<Rightarrow> string list \<Rightarrow> string \<times> bool \<times> error option" where
  "NestedString obj path =
     (case NestedFieldNoCopy (JMap obj) path of (val, found, err) \<Rightarrow>
        if \<not> found \<or> err \<noteq> None then ('''', found, err)
        else (case val of
                JString s \<Rightarrow> (s, True, None)
              | _ \<Rightarrow> ('''', False, Some AccessorError)))"

text \<open>\<^verbatim>\<open>GetResourceVersion\<close> reads \<^verbatim>\<open>metadata.resourceVersion\<close>, the empty string when it is
  missing or not a string.\<close>

definition GetResourceVersion :: "Unstructured \<Rightarrow> string" where
  "GetResourceVersion u =
     (case NestedString (Object u) [''metadata'', ''resourceVersion''] of (val, found, err) \<Rightarrow>
        if \<not> found \<or> err \<noteq> None then '''' else val)"

text \<open>
  \<^verbatim>\<open>GetAnnotations\<close> reads \<^verbatim>\<open>metadata.annotations\<close> as a string map. The result is the nil map
  (no key is found in it) when the field is missing, is not a map, or holds a value that is
  not a string.
\<close>

definition GetAnnotations :: "Unstructured \<Rightarrow> (string \<rightharpoonup> string)" where
  "GetAnnotations u =
     (case NestedFieldNoCopy (JMap (Object u)) [''metadata'', ''annotations''] of
        (JMap m, True, None) \<Rightarrow>
          if \<forall>k \<in> fst ` set m. (case map_of m k of Some (JString s) \<Rightarrow> True | _ \<Rightarrow> False)
          then (\<lambda>k. case map_of m k of Some (JString s) \<Rightarrow> Some s | _ \<Rightarrow> None)
          else Map.empty
      | _ \<Rightarrow> Map.empty)"

section \<open>The handler\<close>

text \<open>
  The fields of \<^verbatim>\<open>Handler\<close>. \<open>ChannelSize\<close> is an \<^verbatim>\<open>int32\<close>. \<open>Services\<close> stands for the state
  behind the two service pointers \<^verbatim>\<open>EC2Service\<close> and \<^verbatim>\<open>ShiedService\<close>. A channel is the list
  of the events buffered in it, oldest first. \<open>Trace\<close> is not a field of the struct: it
  collects the effects of the calls made so far.
\<close>

record 'w Handler =
  ChannelSize :: "32 word"
  Services :: 'w
  ProcessChannel :: "event list list"
  EipStatusMap :: "(string \<rightharpoonup> event) list"
  Trace :: "effect list"

text \<open>
  \<^verbatim>\<open>event.Process\<close> is the reconciliation boundary and its code is not part of the handler:
  it is a parameter, a function of the previous event, the event and the state of the
  services that returns an error or nil and the new state of the services.
\<close>

type_synonym 'w reconcile = "event option \<Rightarrow> event \<Rightarrow> 'w \<Rightarrow> error option \<times> 'w"

definition logrus :: "effect \<Rightarrow> 'w Handler \<Rightarrow> 'w Handler" where
  "logrus r h = h\<lparr>Trace := Trace h @ [r]\<rparr>"

text \<open>
  \<^verbatim>\<open>init\<close> makes \<open>ChannelSize\<close> empty channels of capacity 100 and as many empty maps;
  \<^verbatim>\<open>make\<close> panics on a negative length. The workers it starts are the function \<open>process\<close>
  below, one per index.
\<close>

definition channel_capacity :: nat where
  "channel_capacity = 100"

definition init :: "'w Handler \<Rightarrow> (unit, 'w Handler) outcome" where
  "init h =
     (if sint (ChannelSize h) < 0 then Panics
      else Returns () (h\<lparr>ProcessChannel := replicate (nat (sint (ChannelSize h))) [],
                         EipStatusMap := replicate (nat (sint (ChannelSize h))) Map.empty\<rparr>))"

subsection \<open>The lane worker\<close>

text \<open>
  The body of the loop of \<^verbatim>\<open>process(i)\<close>, for one event \<open>e\<close> received from channel \<open>i\<close>.
  Indexing \<^verbatim>\<open>h.EipStatusMap[i]\<close> out of range panics.
\<close>

definition process_event :: "'w reconcile \<Rightarrow> nat \<Rightarrow> event \<Rightarrow> 'w Handler \<Rightarrow> (unit, 'w Handler) outcome" where
  "process_event Process i e h0 =
     (let h = logrus (LogInfo ''process event'') h0 in
      if length (EipStatusMap h) \<le> i then Panics
      else
        let lookup = (EipStatusMap h ! i) (PodIP e);
            ok = (lookup \<noteq> None);
            record_event = (\<lambda>h'. h'\<lparr>EipStatusMap := (EipStatusMap h')[i := (EipStatusMap h' ! i)(PodIP e \<mapsto> e)]\<rparr>)
        in
        if ok \<and> ResourceVersion (the lookup) = ResourceVersion e
        then Returns () (logrus (LogInfo ''same resource version'') h)
        else if \<not> ok then
          (case Process None e (Services h) of (err, w) \<Rightarrow>
             let h1 = h\<lparr>Services := w, Trace := Trace h @ [ProcessCall None e err]\<rparr> in
             (case err of
                Some er \<Rightarrow> Returns () (logrus (LogError er) h1)
              | None \<Rightarrow> Returns () (record_event h1)))
        else
          (case Process lookup e (Services h) of (err, w) \<Rightarrow>
             let h1 = h\<lparr>Services := w, Trace := Trace h @ [ProcessCall lookup e err]\<rparr> in
             Returns () (record_event h1)))"

text \<open>
  \<^verbatim>\<open>process(i)\<close>: the loop \<^verbatim>\<open>for e = range h.ProcessChannel[i]\<close>. It receives the oldest
  buffered event and runs the body, until the channel is empty, where the receive blocks.
  The channel is never closed, so the loop does not return.
\<close>

function process :: "'w reconcile \<Rightarrow> nat \<Rightarrow> 'w Handler \<Rightarrow> (unit, 'w Handler) outcome" where
  "process Process i h =
     (if length (ProcessChannel h) \<le> i then Panics
      else
        (case ProcessChannel h ! i of
           [] \<Rightarrow> Blocks h
         | e # q \<Rightarrow>
             (case process_event Process i e (h\<lparr>ProcessChannel := (ProcessChannel h)[i := q]\<rparr>) of
                Returns u h' \<Rightarrow> process Process i h'
              | Panics \<Rightarrow> Panics
              | Blocks h' \<Rightarrow> Blocks h')))"
  by pat_completeness auto
termination
proof (relation "measure (\<lambda>(Process, i, h). length (ProcessChannel h ! i))")
  show "wf (measure (\<lambda>(Process :: 'w reconcile, i, h :: 'w Handler). length (ProcessChannel h ! i)))"
    by simp
next
  fix Process :: "'w reconcile" and i :: nat and h :: "'w Handler"
    and e q u h'
  assume i: "\<not> length (ProcessChannel h) \<le> i"
    and q: "ProcessChannel h ! i = e # q"
    and step: "process_event Process i e (h\<lparr>ProcessChannel := (ProcessChannel h)[i := q]\<rparr>) = Returns u h'"
  from step have "ProcessChannel h' = (ProcessChannel h)[i := q]"
    by (auto simp: process_event_def logrus_def Let_def split: if_splits prod.splits option.splits)
  with i q show "((Process, i, h'), (Process, i, h)) \<in> measure (\<lambda>(Process, i, h). length (ProcessChannel h ! i))"
    by simp
qed

subsection \<open>The dispatcher\<close>

text \<open>
  \<^verbatim>\<open>insert2Queue\<close>. The method \<^verbatim>\<open>event.PodIP2Int\<close> is declared in another file of the package:
  it is a parameter that gives the integer the method returns, or \<open>None\<close> where it panics.
  The conversion to \<^verbatim>\<open>int32\<close> keeps the low 32 bits, read as two's complement; \<^verbatim>\<open>%\<close> truncates
  towards zero and panics on a zero divisor; an index outside the slice panics; a send on
  a channel that holds 100 events blocks.
\<close>

definition insert2Queue :: "(event \<Rightarrow> int option) \<Rightarrow> event \<Rightarrow> 'w Handler \<Rightarrow> (unit, 'w Handler) outcome" where
  "insert2Queue PodIP2Int e h =
     (case PodIP2Int e of
        None \<Rightarrow> Panics
      | Some n \<Rightarrow>
          if ChannelSize h = 0 then Panics
          else
            let hash = sint (word_of_int n :: 32 word) smod sint (ChannelSize h) in
            if hash < 0 \<or> int (length (ProcessChannel h)) \<le> hash then Panics
            else if channel_capacity \<le> length (ProcessChannel h ! nat hash) then Blocks h
            else Returns ()
                   (logrus (LogInfo ''insert event to queue'')
                      (h\<lparr>ProcessChannel :=
                           (ProcessChannel h)[nat hash := ProcessChannel h ! nat hash @ [e]]\<rparr>)))"

subsection \<open>The translator\<close>

text \<open>The last two statements of \<^verbatim>\<open>HandleEvent\<close>: the call of \<^verbatim>\<open>insert2Queue\<close>, then the
  return of the nil error.\<close>

definition return_nil :: "(unit, 's) outcome \<Rightarrow> (error option, 's) outcome" where
  "return_nil r = (case r of Returns u s \<Rightarrow> Returns None s | Panics \<Rightarrow> Panics | Blocks s \<Rightarrow> Blocks s)"

definition type_annotation :: string where
  "type_annotation = ''service.beta.kubernetes.io/aws-eip-pod-controller-type''"

definition shield_annotation :: string where
  "shield_annotation = ''service.beta.kubernetes.io/aws-eip-pod-controller-shield''"

text \<open>
  \<^verbatim>\<open>HandleEvent(obj, oldObj, action)\<close>. Both objects are pointers: \<open>None\<close> is nil, and reading
  through a nil pointer panics. The result is the returned error (\<open>None\<close> for nil).
\<close>

definition HandleEvent ::
  "(event \<Rightarrow> int option) \<Rightarrow> Unstructured option \<Rightarrow> Unstructured option \<Rightarrow> string \<Rightarrow> 'w Handler
     \<Rightarrow> (error option, 'w Handler) outcome" where
  "HandleEvent PodIP2Int obj oldObj action h =
     (case obj of
        None \<Rightarrow> Panics
      | Some ob \<Rightarrow>
          (case NestedString (Object ob) [''status'', ''phase''] of (phase, exist, err) \<Rightarrow>
             if err \<noteq> None then Returns err h
             else if exist \<and> phase \<noteq> ''Running''
             then Returns None (logrus (LogInfo (''phase: '' @ phase)) h)
             else
               (case NestedString (Object ob) [''status'', ''podIP''] of (podIP, exist, err) \<Rightarrow>
                  if err \<noteq> None then Returns err h
                  else if exist \<and> length podIP = 0
                  then Returns None (logrus (LogInfo ''podIP is empty'') h)
                  else
                    let h1 = logrus (LogInfo '''') h;
                        event = \<lparr>PodIP = podIP, ResourceVersion = GetResourceVersion ob,
                                 AttachIP = False, ShiedAdv = False\<rparr>
                    in
                    if action = ''update'' then
                      (case oldObj of
                         None \<Rightarrow> Panics
                       | Some old \<Rightarrow>
                           let annotations = GetAnnotations ob;
                               oldAnnotations = GetAnnotations old
                           in
                           if annotations type_annotation = Some ''auto'' then
                             return_nil (insert2Queue PodIP2Int
                               (event\<lparr>AttachIP := True,
                                      ShiedAdv := (annotations shield_annotation = Some ''advanced'')\<rparr>) h1)
                           else if oldAnnotations type_annotation = Some ''auto'' then
                             return_nil (insert2Queue PodIP2Int (event\<lparr>AttachIP := False\<rparr>) h1)
                           else Returns None (logrus (LogInfo ''ignore update event'') h1))
                    else if action = ''delete'' then
                      return_nil (insert2Queue PodIP2Int (event\<lparr>ShiedAdv := False, AttachIP := False\<rparr>) h1)
                    else return_nil (insert2Queue PodIP2Int event h1))))"

section \<open>Observations\<close>

text \<open>The number of calls of \<^verbatim>\<open>event.Process\<close> recorded in a trace.\<close>

fun is_process_call :: "effect \<Rightarrow> bool" where
  "is_process_call (ProcessCall prev e err) = True"
| "is_process_call (LogInfo s) = False"
| "is_process_call (LogError er) = False"

definition reconcile_calls :: "effect list \<Rightarrow> nat" where
  "reconcile_calls t = length (filter is_process_call t)"

text \<open>The number of calls of \<^verbatim>\<open>event.Process\<close> recorded in a trace for the address and the
  resource version of a given event.\<close>

fun is_call_for :: "event \<Rightarrow> effect \<Rightarrow> bool" where
  "is_call_for e (ProcessCall prev ev err) = (PodIP ev = PodIP e \<and> ResourceVersion ev = ResourceVersion e)"
| "is_call_for e (LogInfo s) = False"
| "is_call_for e (LogError er) = False"

definition calls_for :: "event \<Rightarrow> effect list \<Rightarrow> nat" where
  "calls_for e t = length (filter (is_call_for e) t)"

text \<open>The trace of the state in which a call ends (empty for a panic).\<close>

fun trace_of :: "('r, 'w Handler) outcome \<Rightarrow> effect list" where
  "trace_of (Returns r h) = Trace h"
| "trace_of (Blocks h) = Trace h"
| "trace_of Panics = []"

text \<open>
  A notification passes the two filters at the head of \<^verbatim>\<open>HandleEvent\<close> when neither accessor
  fails, the phase is absent or \<^verbatim>\<open>Running\<close>, and the pod address is absent or not empty.
\<close>

definition passes_filters :: "Unstructured \<Rightarrow> bool" where
  "passes_filters ob =
     (case NestedString (Object ob) [''status'', ''phase''] of (phase, exist, err) \<Rightarrow>
        err = None \<and> \<not> (exist \<and> phase \<noteq> ''Running'') \<and>
        (case NestedString (Object ob) [''status'', ''podIP''] of (podIP, exist, err) \<Rightarrow>
           err = None \<and> \<not> (exist \<and> length podIP = 0)))"

text \<open>The event literal that \<^verbatim>\<open>HandleEvent\<close> builds before the switch on the action.\<close>

definition candidate :: "Unstructured \<Rightarrow> event" where
  "candidate ob =
     \<lparr>PodIP = fst (NestedString (Object ob) [''status'', ''podIP'']),
      ResourceVersion = GetResourceVersion ob, AttachIP = False, ShiedAdv = False\<rparr>"

text \<open>Between two states, exactly one channel has grown, by the event \<open>e\<close> at its end.\<close>

definition appended_to_lane :: "event \<Rightarrow> 'w Handler \<Rightarrow> 'w Handler \<Rightarrow> bool" where
  "appended_to_lane e h h' =
     (\<exists>k \<in> {..<length (ProcessChannel h)}.
        ProcessChannel h' = (ProcessChannel h)[k := ProcessChannel h ! k @ [e]])"

section \<open>Concrete inputs\<close>

text \<open>
  A handler with one lane, given the content of its channel, its status map and the state
  of the services; here that state counts the calls the services have received.
\<close>

definition one_lane :: "event list \<Rightarrow> (string \<rightharpoonup> event) \<Rightarrow> nat \<Rightarrow> nat Handler" where
  "one_lane q m n =
     \<lparr>ChannelSize = 1, Services = n, ProcessChannel = [q], EipStatusMap = [m], Trace = []\<rparr>"

definition ev100 :: event where
  "ev100 = \<lparr>PodIP = ''10.0.0.5'', ResourceVersion = ''100'', AttachIP = True, ShiedAdv = False\<rparr>"

definition ev101 :: event where
  "ev101 = \<lparr>PodIP = ''10.0.0.5'', ResourceVersion = ''101'', AttachIP = True, ShiedAdv = True\<rparr>"

text \<open>An event of another pod.\<close>

definition ev200 :: event where
  "ev200 = \<lparr>PodIP = ''10.0.0.9'', ResourceVersion = ''200'', AttachIP = True, ShiedAdv = False\<rparr>"

text \<open>Three reconciliation services: one that succeeds, one that fails, and one that fails
  on the first call it receives and succeeds afterwards.\<close>

definition steady_service :: "nat reconcile" where
  "steady_service prev e n = (None, Suc n)"

definition failing_service :: "nat reconcile" where
  "failing_service prev e n = (Some (ServiceError ''throttled''), Suc n)"

definition flaky_service :: "nat reconcile" where
  "flaky_service prev e n = (if n = 0 then Some (ServiceError ''throttled'') else None, Suc n)"

text \<open>A \<^verbatim>\<open>PodIP2Int\<close> that sends every event to lane 0.\<close>

definition first_lane :: "event \<Rightarrow> int option" where
  "first_lane e = Some 0"

text \<open>A pod object with the given phase and address (\<open>None\<close>: the field is absent), resource
  version and annotations.\<close>

definition pod :: "string option \<Rightarrow> string option \<Rightarrow> string \<Rightarrow> (string \<times> string) list \<Rightarrow> Unstructured" where
  "pod phase ip rv anns =
     \<lparr>Object =
        [(''metadata'', JMap [(''resourceVersion'', JString rv),
                              (''annotations'', JMap (map (\<lambda>(k, v). (k, JString v)) anns))]),
         (''status'', JMap ((case phase of None \<Rightarrow> [] | Some p \<Rightarrow> [(''phase'', JString p)]) @
                            (case ip of None \<Rightarrow> [] | Some a \<Rightarrow> [(''podIP'', JString a)])))]\<rparr>"

definition auto_pod :: Unstructured where
  "auto_pod = pod (Some ''Running'') (Some ''10.0.0.5'') ''100'' [(type_annotation, ''auto'')]"

definition shielded_pod :: Unstructured where
  "shielded_pod = pod (Some ''Running'') (Some ''10.0.0.5'') ''101''
     [(type_annotation, ''auto''), (shield_annotation, ''advanced'')]"

definition plain_pod :: Unstructured where
  "plain_pod = pod (Some ''Running'') (Some ''10.0.0.5'') ''102'' []"

definition pending_pod :: Unstructured where
  "pending_pod = pod (Some ''Pending'') None ''7'' [(type_annotation, ''auto'')]"

definition addressless_pod :: Unstructured where
  "addressless_pod = pod (Some ''Running'') None ''8'' []"

definition empty_address_pod :: Unstructured where
  "empty_address_pod = pod (Some ''Running'') (Some []) ''9'' [(type_annotation, ''auto'')]"

section \<open>Properties of the lane worker\<close>

lemma process_event_channels:
  "process_event Process i e h = Returns u h' \<Longrightarrow> ProcessChannel h' = ProcessChannel h"
  by (auto simp: process_event_def logrus_def Let_def split: if_splits prod.splits option.splits)

lemma reconcile_calls_append [simp]:
  "reconcile_calls (t @ u) = reconcile_calls t + reconcile_calls u"
  by (simp add: reconcile_calls_def)

lemma reconcile_calls_simps [simp]:
  "reconcile_calls [] = 0"
  "reconcile_calls (LogInfo s # t) = reconcile_calls t"
  "reconcile_calls (LogError er # t) = reconcile_calls t"
  "reconcile_calls (ProcessCall prev e err # t) = Suc (reconcile_calls t)"
  by (simp_all add: reconcile_calls_def)

lemma process_event_duplicate:
  assumes "i < length (EipStatusMap h)"
    and "(EipStatusMap h ! i) (PodIP e) = Some val"
    and "ResourceVersion val = ResourceVersion e"
  shows "process_event Process i e h =
           Returns () (h\<lparr>Trace := Trace h @ [LogInfo ''process event'', LogInfo ''same resource version'']\<rparr>)"
  using assms by (simp add: process_event_def logrus_def Let_def)

lemma process_event_create:
  assumes "i < length (EipStatusMap h)"
    and "(EipStatusMap h ! i) (PodIP e) = None"
  shows "process_event Process i e h =
           (case Process None e (Services h) of
              (None, w) \<Rightarrow>
                Returns () (h\<lparr>Services := w,
                              EipStatusMap := (EipStatusMap h)[i := (EipStatusMap h ! i)(PodIP e \<mapsto> e)],
                              Trace := Trace h @ [LogInfo ''process event'', ProcessCall None e None]\<rparr>)
            | (Some er, w) \<Rightarrow>
                Returns () (h\<lparr>Services := w,
                              Trace := Trace h @ [LogInfo ''process event'', ProcessCall None e (Some er),
                                                  LogError er]\<rparr>))"
  using assms by (simp add: process_event_def logrus_def Let_def split: prod.splits option.splits)

lemma process_event_transition:
  assumes "i < length (EipStatusMap h)"
    and "(EipStatusMap h ! i) (PodIP e) = Some val"
    and "ResourceVersion val \<noteq> ResourceVersion e"
  shows "process_event Process i e h =
           (case Process (Some val) e (Services h) of
              (err, w) \<Rightarrow>
                Returns () (h\<lparr>Services := w,
                              EipStatusMap := (EipStatusMap h)[i := (EipStatusMap h ! i)(PodIP e \<mapsto> e)],
                              Trace := Trace h @ [LogInfo ''process event'', ProcessCall (Some val) e err]\<rparr>))"
  using assms by (simp add: process_event_def logrus_def Let_def split: prod.splits option.splits)

lemma calls_for_append [simp]:
  "calls_for e (t @ u) = calls_for e t + calls_for e u"
  by (simp add: calls_for_def)

lemma calls_for_simps [simp]:
  "calls_for e [] = 0"
  "calls_for e (LogInfo s # t) = calls_for e t"
  "calls_for e (LogError er # t) = calls_for e t"
  "calls_for e (ProcessCall prev ev err # t) =
     (if PodIP ev = PodIP e \<and> ResourceVersion ev = ResourceVersion e then Suc (calls_for e t)
      else calls_for e t)"
  by (simp_all add: calls_for_def)

text \<open>One step of the loop of \<^verbatim>\<open>process\<close>: on the empty channel, and on a channel with a
  first event whose body returns.\<close>

lemma process_Nil:
  assumes "i < length (ProcessChannel h)" "ProcessChannel h ! i = []"
  shows "process Process i h = Blocks h"
  using assms by (subst process.simps) simp

lemma process_Cons:
  assumes "i < length (ProcessChannel h)" "ProcessChannel h ! i = x # q"
    and "process_event Process i x (h\<lparr>ProcessChannel := (ProcessChannel h)[i := q]\<rparr>) = Returns () h1"
  shows "process Process i h = process Process i h1"
  using assms by (subst process.simps) simp

text \<open>An event that is not another version of the address of \<open>e\<close> leaves the entry stored
  for that address and the number of calls made for \<open>e\<close> as they are, once the entry holds
  the version of \<open>e\<close>.\<close>

lemma process_event_harmless:
  assumes m: "i < length (EipStatusMap h)"
    and st: "(EipStatusMap h ! i) (PodIP e) = Some v" "ResourceVersion v = ResourceVersion e"
    and ok: "PodIP x = PodIP e \<longrightarrow> ResourceVersion x = ResourceVersion e"
  shows "\<exists>h1 v1. process_event Process i x h = Returns () h1 \<and>
           ProcessChannel h1 = ProcessChannel h \<and>
           length (EipStatusMap h1) = length (EipStatusMap h) \<and>
           (EipStatusMap h1 ! i) (PodIP e) = Some v1 \<and> ResourceVersion v1 = ResourceVersion e \<and>
           calls_for e (Trace h1) = calls_for e (Trace h)"
proof (cases "PodIP x = PodIP e")
  case True
  with ok st have "(EipStatusMap h ! i) (PodIP x) = Some v" "ResourceVersion v = ResourceVersion x"
    by simp_all
  from process_event_duplicate [OF m this, of Process] st show ?thesis by simp
next
  case False
  show ?thesis
  proof (cases "(EipStatusMap h ! i) (PodIP x)")
    case None
    from process_event_create [OF m None, of Process] False st m show ?thesis
      by (cases "Process None x (Services h)") (auto split: option.splits)
  next
    case (Some val)
    show ?thesis
    proof (cases "ResourceVersion val = ResourceVersion x")
      case True
      from process_event_duplicate [OF m Some True, of Process] st show ?thesis by simp
    next
      case ne: False
      from process_event_transition [OF m Some ne, of Process] False st m show ?thesis
        by (cases "Process (Some val) x (Services h)") auto
    qed
  qed
qed

text \<open>A channel of such events is drained without a call for \<open>e\<close>.\<close>

lemma process_drain_harmless:
  assumes "i < length (EipStatusMap h)" "i < length (ProcessChannel h)"
    and "ProcessChannel h ! i = q"
    and "(EipStatusMap h ! i) (PodIP e) = Some v" "ResourceVersion v = ResourceVersion e"
    and "\<forall>x \<in> set q. PodIP x = PodIP e \<longrightarrow> ResourceVersion x = ResourceVersion e"
  shows "\<exists>h'. process Process i h = Blocks h' \<and> calls_for e (Trace h') = calls_for e (Trace h)"
  using assms
proof (induction q arbitrary: h v)
  case Nil
  from process_Nil [OF Nil(2,3)] show ?case by blast
next
  case (Cons x q)
  let ?h = "h\<lparr>ProcessChannel := (ProcessChannel h)[i := q]\<rparr>"
  have a: "i < length (EipStatusMap ?h)" and b: "(EipStatusMap ?h ! i) (PodIP e) = Some v"
    using Cons.prems by simp_all
  have okx: "PodIP x = PodIP e \<longrightarrow> ResourceVersion x = ResourceVersion e"
    using Cons.prems(6) by simp
  from process_event_harmless [OF a b Cons.prems(5) okx, of Process]
  obtain h1 v1 where s: "process_event Process i x ?h = Returns () h1"
    and c: "ProcessChannel h1 = ProcessChannel ?h"
    and l: "length (EipStatusMap h1) = length (EipStatusMap ?h)"
    and e1: "(EipStatusMap h1 ! i) (PodIP e) = Some v1" "ResourceVersion v1 = ResourceVersion e"
    and t: "calls_for e (Trace h1) = calls_for e (Trace ?h)"
    by blast
  have p1: "i < length (EipStatusMap h1)" using l Cons.prems(1) by simp
  have p2: "i < length (ProcessChannel h1)" using c Cons.prems(2) by simp
  have p3: "ProcessChannel h1 ! i = q" using c Cons.prems(2) by simp
  have p4: "\<forall>x \<in> set q. PodIP x = PodIP e \<longrightarrow> ResourceVersion x = ResourceVersion e"
    using Cons.prems(6) by simp
  from Cons.IH [OF p1 p2 p3 e1 p4]
  obtain h' where d: "process Process i h1 = Blocks h'"
    and t': "calls_for e (Trace h') = calls_for e (Trace h1)" by blast
  have "process Process i h = process Process i h1"
    by (rule process_Cons [OF Cons.prems(2,3) s])
  with d t t' show ?case by simp
qed

lemma resubmission_one_call:
  assumes m: "i < length (EipStatusMap h)"
    and i: "i < length (ProcessChannel h)"
    and q: "ProcessChannel h ! i = e # mid @ e' # rest"
    and same: "PodIP e' = PodIP e" "ResourceVersion e' = ResourceVersion e"
    and others: "\<forall>x \<in> set mid \<union> set rest. PodIP x = PodIP e \<longrightarrow> ResourceVersion x = ResourceVersion e"
    and recorded: "case (EipStatusMap h ! i) (PodIP e) of
                None \<Rightarrow> fst (Process None e (Services h)) = None
              | Some val \<Rightarrow> ResourceVersion val \<noteq> ResourceVersion e"
  shows "\<exists>h'. process Process i h = Blocks h' \<and> calls_for e (Trace h') = calls_for e (Trace h) + 1"
proof -
  let ?q = "mid @ e' # rest"
  let ?h = "h\<lparr>ProcessChannel := (ProcessChannel h)[i := ?q]\<rparr>"
  have m': "i < length (EipStatusMap ?h)" using m by simp
  obtain h1 where s1: "process_event Process i e ?h = Returns () h1"
    and st1: "(EipStatusMap h1 ! i) (PodIP e) = Some e"
    and len1: "length (EipStatusMap h1) = length (EipStatusMap h)"
    and t1: "calls_for e (Trace h1) = calls_for e (Trace h) + 1"
  proof (cases "(EipStatusMap h ! i) (PodIP e)")
    case None
    then obtain w where "Process None e (Services h) = (None, w)"
      using recorded by (cases "Process None e (Services h)") simp
    with None m that show ?thesis
      by (simp add: process_event_create [OF m'])
  next
    case (Some val)
    then have ne: "ResourceVersion val \<noteq> ResourceVersion e" using recorded by simp
    obtain err w where pr: "Process (Some val) e (Services h) = (err, w)"
      by (cases "Process (Some val) e (Services h)")
    have "(EipStatusMap ?h ! i) (PodIP e) = Some val" using Some by simp
    from process_event_transition [OF m' this ne, of Process] pr m that show ?thesis
      by simp
  qed
  have c1: "ProcessChannel h1 = (ProcessChannel h)[i := ?q]"
    using process_event_channels [OF s1] by simp
  have p1: "i < length (EipStatusMap h1)" using len1 m by simp
  have p2: "i < length (ProcessChannel h1)" using c1 i by simp
  have p3: "ProcessChannel h1 ! i = ?q" using c1 i by simp
  have p4: "\<forall>x \<in> set ?q. PodIP x = PodIP e \<longrightarrow> ResourceVersion x = ResourceVersion e"
    using same others by simp
  have refl: "ResourceVersion e = ResourceVersion e" by simp
  from process_drain_harmless [OF p1 p2 p3 st1 refl p4, of Process]
  obtain h' where d: "process Process i h1 = Blocks h'"
    and t': "calls_for e (Trace h') = calls_for e (Trace h1)" by blast
  have "process Process i h = process Process i h1"
    by (rule process_Cons [OF i q s1])
  with d t1 t' show ?thesis by simp
qed

section \<open>Claims about the lane worker\<close>

text \<open>
  Claim C1, as amended. An event whose pod address has an entry in the lane's status map
  with the same resource version is discarded: the body writes its two log records and
  nothing else, so \<^verbatim>\<open>event.Process\<close> is not called and the status map, the services and the
  channels stay as they were. Hence one call of \<^verbatim>\<open>event.Process\<close> is made for an
  (address, version) that a channel holds twice, under two conditions. The first of the two
  is at the head of the channel and gets recorded: the address had no entry and the
  creation call returns no error, or it had an entry with another version. And every other
  event in the channel, before or after the second of the two, that has this address has
  this version too. Events of other addresses may stand anywhere behind the head. The
  worker then drains the channel and waits on it, and the trace holds exactly one more
  call for this address and version than before.
\<close>

theorem duplicate_version_discarded:
  assumes "i < length (EipStatusMap h)"
  shows "(\<forall>val. (EipStatusMap h ! i) (PodIP e) = Some val \<and> ResourceVersion val = ResourceVersion e \<longrightarrow>
            process_event Process i e h =
              Returns () (h\<lparr>Trace := Trace h @ [LogInfo ''process event'',
                                                  LogInfo ''same resource version'']\<rparr>))
       \<and> (\<forall>e' mid rest.
             i < length (ProcessChannel h) \<and> ProcessChannel h ! i = e # mid @ e' # rest \<and>
             PodIP e' = PodIP e \<and> ResourceVersion e' = ResourceVersion e \<and>
             (\<forall>x \<in> set mid \<union> set rest. PodIP x = PodIP e \<longrightarrow> ResourceVersion x = ResourceVersion e) \<and>
             (case (EipStatusMap h ! i) (PodIP e) of
                None \<Rightarrow> fst (Process None e (Services h)) = None
              | Some val \<Rightarrow> ResourceVersion val \<noteq> ResourceVersion e) \<longrightarrow>
            (\<exists>h'. process Process i h = Blocks h' \<and>
                  calls_for e (Trace h') = calls_for e (Trace h) + 1))"
  using assms process_event_duplicate [of i h e _ Process] resubmission_one_call [of i h e _ _ _ Process]
  by blast

text \<open>A redelivered event with a stored entry; an event submitted twice to a fresh lane whose
  service succeeds; and the same with events of another pod behind each of the two.\<close>

theorem duplicate_version_discarded_witness:
  "process_event steady_service 0 ev100 (one_lane [] [PodIP ev100 \<mapsto> ev100] 1) =
     Returns () ((one_lane [] [PodIP ev100 \<mapsto> ev100] 1)
        \<lparr>Trace := [LogInfo ''process event'', LogInfo ''same resource version'']\<rparr>)
   \<and> (\<exists>h'. process steady_service 0 (one_lane [ev100, ev100] Map.empty 0) = Blocks h' \<and>
            calls_for ev100 (Trace h') = 1)
   \<and> (\<exists>h'. process steady_service 0 (one_lane [ev100, ev200, ev100, ev200] Map.empty 0) = Blocks h' \<and>
            calls_for ev100 (Trace h') = 1)"
proof (intro conjI)
  show "process_event steady_service 0 ev100 (one_lane [] [PodIP ev100 \<mapsto> ev100] 1) =
     Returns () ((one_lane [] [PodIP ev100 \<mapsto> ev100] 1)
        \<lparr>Trace := [LogInfo ''process event'', LogInfo ''same resource version'']\<rparr>)"
    using duplicate_version_discarded [of 0 "one_lane [] [PodIP ev100 \<mapsto> ev100] 1" ev100 steady_service]
    by (simp add: one_lane_def)
  have "\<exists>h'. process steady_service 0 (one_lane [ev100, ev100] Map.empty 0) = Blocks h' \<and>
            calls_for ev100 (Trace h') = calls_for ev100 (Trace (one_lane [ev100, ev100] Map.empty 0)) + 1"
    using duplicate_version_discarded [of 0 "one_lane [ev100, ev100] Map.empty 0" ev100 steady_service,
        THEN conjunct2, rule_format, of "[]" ev100 "[]"]
    by (simp add: one_lane_def steady_service_def)
  then show "\<exists>h'. process steady_service 0 (one_lane [ev100, ev100] Map.empty 0) = Blocks h' \<and>
            calls_for ev100 (Trace h') = 1"
    by (simp add: one_lane_def)
  have "\<exists>h'. process steady_service 0 (one_lane [ev100, ev200, ev100, ev200] Map.empty 0) = Blocks h' \<and>
            calls_for ev100 (Trace h') =
              calls_for ev100 (Trace (one_lane [ev100, ev200, ev100, ev200] Map.empty 0)) + 1"
    using duplicate_version_discarded [of 0 "one_lane [ev100, ev200, ev100, ev200] Map.empty 0" ev100 steady_service,
        THEN conjunct2, rule_format, of "[ev200]" ev100 "[ev200]"]
    by (simp add: one_lane_def steady_service_def ev100_def ev200_def)
  then show "\<exists>h'. process steady_service 0 (one_lane [ev100, ev200, ev100, ev200] Map.empty 0) = Blocks h' \<and>
            calls_for ev100 (Trace h') = 1"
    by (simp add: one_lane_def)
qed

text \<open>
  Claim C1 as written fails where the creation call fails: nothing is stored, the second
  delivery is not recognised as a duplicate, and \<^verbatim>\<open>event.Process\<close> is called twice. It also
  fails where another version of the same address is processed between the two: the
  entry then holds that other version, and the second delivery is reconciled again.
\<close>

theorem two_submissions_two_calls:
  "reconcile_calls (trace_of (process failing_service 0 (one_lane [ev100, ev100] Map.empty 0))) = 2
   \<and> calls_for ev100 (trace_of (process steady_service 0 (one_lane [ev100, ev101, ev100] Map.empty 0))) = 2"
  by (simp add: process.simps process_event_def logrus_def one_lane_def failing_service_def
        steady_service_def ev100_def ev101_def Let_def)

text \<open>
  Claim C2: every error that arises in the handler gets at least a log record before it is
  dropped. The worker does so on the creation path (\<^verbatim>\<open>logrus.Error(err)\<close>), but on the
  transition path it ignores the value that \<^verbatim>\<open>event.Process\<close> returns. With the stored event
  of version 100, the incoming event of version 101 and a service that fails, the only log
  record of the run is the one written before the call; the error is the last entry of the
  trace and the new event is stored.
\<close>

theorem transition_error_leaves_no_log_record:
  "process_event failing_service 0 ev101 (one_lane [] [PodIP ev100 \<mapsto> ev100] 0) =
     Returns () ((one_lane [] [PodIP ev100 \<mapsto> ev101] 1)
       \<lparr>Trace := [LogInfo ''process event'',
                  ProcessCall (Some ev100) ev101 (Some (ServiceError ''throttled''))]\<rparr>)"
  by (simp add: process_event_def logrus_def one_lane_def failing_service_def ev100_def ev101_def Let_def)

text \<open>
  Claim C3. For an event whose pod address has no entry in the lane's status map, the
  worker calls \<^verbatim>\<open>event.Process\<close> with the nil previous event. When the call returns an error
  the worker logs it and stores nothing: the status map is as before, and when the same
  event is processed again in the resulting state, \<^verbatim>\<open>event.Process\<close> is called again with
  the nil previous event.
\<close>

theorem creation_failure_not_recorded:
  assumes "i < length (EipStatusMap h)"
    and "(EipStatusMap h ! i) (PodIP e) = None"
  shows "process_event Process i e h =
           (case Process None e (Services h) of
              (None, w) \<Rightarrow>
                Returns () (h\<lparr>Services := w,
                              EipStatusMap := (EipStatusMap h)[i := (EipStatusMap h ! i)(PodIP e \<mapsto> e)],
                              Trace := Trace h @ [LogInfo ''process event'', ProcessCall None e None]\<rparr>)
            | (Some er, w) \<Rightarrow>
                Returns () (h\<lparr>Services := w,
                              Trace := Trace h @ [LogInfo ''process event'', ProcessCall None e (Some er),
                                                  LogError er]\<rparr>))
       \<and> (\<forall>h'. process_event Process i e h = Returns () h' \<and> fst (Process None e (Services h)) \<noteq> None \<longrightarrow>
             EipStatusMap h' = EipStatusMap h \<and>
             (\<exists>t. trace_of (process_event Process i e h') =
                    Trace h' @ LogInfo ''process event'' #
                               ProcessCall None e (fst (Process None e (Services h'))) # t))"
proof (intro conjI allI impI)
  show first: "process_event Process i e h =
           (case Process None e (Services h) of
              (None, w) \<Rightarrow>
                Returns () (h\<lparr>Services := w,
                              EipStatusMap := (EipStatusMap h)[i := (EipStatusMap h ! i)(PodIP e \<mapsto> e)],
                              Trace := Trace h @ [LogInfo ''process event'', ProcessCall None e None]\<rparr>)
            | (Some er, w) \<Rightarrow>
                Returns () (h\<lparr>Services := w,
                              Trace := Trace h @ [LogInfo ''process event'', ProcessCall None e (Some er),
                                                  LogError er]\<rparr>))"
    by (rule process_event_create [OF assms])
  fix h'
  assume a: "process_event Process i e h = Returns () h' \<and> fst (Process None e (Services h)) \<noteq> None"
  then obtain er w where p: "Process None e (Services h) = (Some er, w)"
    by (cases "Process None e (Services h)") auto
  with a first have h': "h' = h\<lparr>Services := w,
       Trace := Trace h @ [LogInfo ''process event'', ProcessCall None e (Some er), LogError er]\<rparr>"
    by simp
  then show "EipStatusMap h' = EipStatusMap h" by simp
  have "i < length (EipStatusMap h')" "(EipStatusMap h' ! i) (PodIP e) = None"
    using assms h' by simp_all
  from process_event_create [OF this, of Process]
  show "\<exists>t. trace_of (process_event Process i e h') =
             Trace h' @ LogInfo ''process event'' #
                        ProcessCall None e (fst (Process None e (Services h'))) # t"
    by (auto split: prod.splits option.splits)
qed

text \<open>A service that fails on its first call: the first delivery is logged and not stored,
  the second delivery makes the creation call again, which succeeds.\<close>

theorem creation_failure_not_recorded_witness:
  "process_event flaky_service 0 ev100 (one_lane [] Map.empty 0) =
     Returns () ((one_lane [] Map.empty 1)
       \<lparr>Trace := [LogInfo ''process event'',
                  ProcessCall None ev100 (Some (ServiceError ''throttled'')),
                  LogError (ServiceError ''throttled'')]\<rparr>)
   \<and> (\<exists>t. trace_of (process_event flaky_service 0 ev100
              ((one_lane [] Map.empty 1)
                 \<lparr>Trace := [LogInfo ''process event'',
                            ProcessCall None ev100 (Some (ServiceError ''throttled'')),
                            LogError (ServiceError ''throttled'')]\<rparr>)) =
            [LogInfo ''process event'',
             ProcessCall None ev100 (Some (ServiceError ''throttled'')),
             LogError (ServiceError ''throttled''),
             LogInfo ''process event'', ProcessCall None ev100 None] @ t)"
proof -
  let ?h = "one_lane [] Map.empty 0"
  let ?h' = "(one_lane [] Map.empty 1)
       \<lparr>Trace := [LogInfo ''process event'',
                  ProcessCall None ev100 (Some (ServiceError ''throttled'')),
                  LogError (ServiceError ''throttled'')]\<rparr>"
  have pre: "0 < length (EipStatusMap ?h)" "(EipStatusMap ?h ! 0) (PodIP ev100) = None"
    by (simp_all add: one_lane_def)
  note fact = creation_failure_not_recorded [OF pre, of flaky_service]
  have s: "process_event flaky_service 0 ev100 ?h = Returns () ?h'"
    using fact by (simp add: one_lane_def flaky_service_def)
  have "fst (flaky_service None ev100 (Services ?h)) \<noteq> None"
    by (simp add: one_lane_def flaky_service_def)
  with fact s have "\<exists>t. trace_of (process_event flaky_service 0 ev100 ?h') =
      Trace ?h' @ LogInfo ''process event'' #
        ProcessCall None ev100 (fst (flaky_service None ev100 (Services ?h'))) # t"
    by blast
  then have "\<exists>t. trace_of (process_event flaky_service 0 ev100 ?h') =
            [LogInfo ''process event'',
             ProcessCall None ev100 (Some (ServiceError ''throttled'')),
             LogError (ServiceError ''throttled''),
             LogInfo ''process event'', ProcessCall None ev100 None] @ t"
    by (simp add: one_lane_def flaky_service_def)
  with s show ?thesis by blast
qed

text \<open>
  Claim C4. For an event whose pod address has an entry with another resource version, the
  worker calls \<^verbatim>\<open>event.Process\<close> with the stored event and the new one and then stores the
  new event under its address, whatever the call returned.
\<close>

theorem transition_always_recorded:
  assumes "i < length (EipStatusMap h)"
    and "(EipStatusMap h ! i) (PodIP e) = Some val"
    and "ResourceVersion val \<noteq> ResourceVersion e"
  shows "process_event Process i e h =
           (case Process (Some val) e (Services h) of
              (err, w) \<Rightarrow>
                Returns () (h\<lparr>Services := w,
                              EipStatusMap := (EipStatusMap h)[i := (EipStatusMap h ! i)(PodIP e \<mapsto> e)],
                              Trace := Trace h @ [LogInfo ''process event'', ProcessCall (Some val) e err]\<rparr>))"
  by (rule process_event_transition [OF assms])

text \<open>The same transition with a failing and with a succeeding call: version 101 replaces
  version 100 both times.\<close>

theorem transition_always_recorded_witness:
  "process_event flaky_service 0 ev101 (one_lane [] [PodIP ev100 \<mapsto> ev100] 0) =
     Returns () ((one_lane [] [PodIP ev100 \<mapsto> ev101] 1)
       \<lparr>Trace := [LogInfo ''process event'',
                  ProcessCall (Some ev100) ev101 (Some (ServiceError ''throttled''))]\<rparr>)
   \<and> process_event flaky_service 0 ev101 (one_lane [] [PodIP ev100 \<mapsto> ev100] 1) =
     Returns () ((one_lane [] [PodIP ev100 \<mapsto> ev101] 2)
       \<lparr>Trace := [LogInfo ''process event'', ProcessCall (Some ev100) ev101 None]\<rparr>)"
  using transition_always_recorded [of 0 "one_lane [] [PodIP ev100 \<mapsto> ev100] 0" ev101 ev100 flaky_service]
    transition_always_recorded [of 0 "one_lane [] [PodIP ev100 \<mapsto> ev100] 1" ev101 ev100 flaky_service]
  by (simp add: one_lane_def flaky_service_def ev100_def ev101_def)

section \<open>Properties of the translator and the dispatcher\<close>

text \<open>
  An accessor that reports a found field reports no error, and one that reports no field
  returns the empty string.
\<close>

lemma NestedFieldNoCopy_found:
  "NestedFieldNoCopy val path = (v, True, err) \<Longrightarrow> err = None"
  by (induction val path rule: NestedFieldNoCopy.induct) (auto split: option.splits)

lemma NestedString_found:
  "NestedString obj path = (s, True, err) \<Longrightarrow> err = None"
  by (auto simp: NestedString_def split: prod.splits if_splits json.splits dest: NestedFieldNoCopy_found)

lemma HandleEvent_passed:
  assumes "passes_filters ob"
  shows "HandleEvent PodIP2Int (Some ob) oldObj action h =
     (if action = ''update'' then
        (case oldObj of
           None \<Rightarrow> Panics
         | Some old \<Rightarrow>
             if GetAnnotations ob type_annotation = Some ''auto'' then
               return_nil (insert2Queue PodIP2Int
                 ((candidate ob)\<lparr>AttachIP := True,
                        ShiedAdv := (GetAnnotations ob shield_annotation = Some ''advanced'')\<rparr>)
                 (logrus (LogInfo '''') h))
             else if GetAnnotations old type_annotation = Some ''auto'' then
               return_nil (insert2Queue PodIP2Int (candidate ob) (logrus (LogInfo '''') h))
             else Returns None (logrus (LogInfo ''ignore update event'') (logrus (LogInfo '''') h)))
      else return_nil (insert2Queue PodIP2Int (candidate ob) (logrus (LogInfo '''') h)))"
  using assms
  by (auto simp: passes_filters_def HandleEvent_def candidate_def Let_def split: prod.splits option.splits)

lemma insert2Queue_Returns:
  assumes "insert2Queue PodIP2Int e h = Returns u h'"
  shows "appended_to_lane e h h'"
  using assms
  unfolding insert2Queue_def appended_to_lane_def Let_def logrus_def
  by (auto split: option.splits if_splits intro!: bexI [where x = "nat (sint (word_of_int _ :: 32 word) smod sint (ChannelSize h))"])

lemma insert2Queue_Blocks:
  "insert2Queue PodIP2Int e h = Blocks h' \<Longrightarrow> h' = h"
  by (auto simp: insert2Queue_def Let_def split: option.splits if_splits)

lemma return_nil_Returns:
  "return_nil out = Returns r h' \<Longrightarrow> r = None \<and> out = Returns () h'"
  by (cases out) (simp_all add: return_nil_def)

lemma return_nil_Blocks:
  "return_nil out = Blocks h' \<Longrightarrow> out = Blocks h'"
  by (cases out) (simp_all add: return_nil_def)

lemma appended_to_lane_logrus [simp]:
  "appended_to_lane e (logrus r h) h' = appended_to_lane e h h'"
  by (simp add: appended_to_lane_def logrus_def)

lemma dispatch_Returns:
  assumes "return_nil (insert2Queue PodIP2Int e (logrus r h)) = Returns x h'"
  shows "x = None \<and> appended_to_lane e h h'"
  using return_nil_Returns [OF assms] insert2Queue_Returns [of PodIP2Int e "logrus r h" "()" h']
  by simp

lemma NestedString_absent:
  "NestedString obj path = (s, False, err) \<Longrightarrow> s = ''''"
  by (auto simp: NestedString_def split: prod.splits if_splits json.splits)

lemma HandleEvent_filtered:
  assumes "\<not> passes_filters ob"
  shows "\<exists>r t. HandleEvent PodIP2Int (Some ob) oldObj action h = Returns r (h\<lparr>Trace := Trace h @ t\<rparr>)"
proof -
  obtain phase pe perr where ph: "NestedString (Object ob) [''status'', ''phase''] = (phase, pe, perr)"
    by (cases "NestedString (Object ob) [''status'', ''phase'']") auto
  obtain podIP ie ierr where ip: "NestedString (Object ob) [''status'', ''podIP''] = (podIP, ie, ierr)"
    by (cases "NestedString (Object ob) [''status'', ''podIP'']") auto
  consider (a) "perr \<noteq> None"
    | (b) "perr = None" "pe \<and> phase \<noteq> ''Running''"
    | (c) "perr = None" "\<not> (pe \<and> phase \<noteq> ''Running'')" "ierr \<noteq> None"
    | (d) "perr = None" "\<not> (pe \<and> phase \<noteq> ''Running'')" "ierr = None" "ie \<and> length podIP = 0"
    using assms ph ip by (auto simp: passes_filters_def)
  then show ?thesis
  proof cases
    case a
    then have "HandleEvent PodIP2Int (Some ob) oldObj action h = Returns perr (h\<lparr>Trace := Trace h @ []\<rparr>)"
      using ph by (simp add: HandleEvent_def)
    then show ?thesis by blast
  next
    case b
    then have "HandleEvent PodIP2Int (Some ob) oldObj action h =
        Returns None (h\<lparr>Trace := Trace h @ [LogInfo (''phase: '' @ phase)]\<rparr>)"
      using ph by (simp add: HandleEvent_def logrus_def)
    then show ?thesis by blast
  next
    case c
    then have "HandleEvent PodIP2Int (Some ob) oldObj action h = Returns ierr (h\<lparr>Trace := Trace h @ []\<rparr>)"
      using ph ip by (auto simp: HandleEvent_def)
    then show ?thesis by blast
  next
    case d
    then have "HandleEvent PodIP2Int (Some ob) oldObj action h =
        Returns None (h\<lparr>Trace := Trace h @ [LogInfo ''podIP is empty'']\<rparr>)"
      using ph ip by (auto simp: HandleEvent_def logrus_def)
    then show ?thesis by blast
  qed
qed

lemma appended_to_lane_Trace [simp]:
  "appended_to_lane e h (h'\<lparr>Trace := t\<rparr>) = appended_to_lane e h h'"
  by (simp add: appended_to_lane_def)

text \<open>
  The definitions that evaluate a call of \<^verbatim>\<open>HandleEvent\<close> on a concrete object.
\<close>

lemmas ev_defs = HandleEvent_def NestedString_def GetResourceVersion_def GetAnnotations_def
  pod_def insert2Queue_def first_lane_def one_lane_def channel_capacity_def logrus_def return_nil_def
  type_annotation_def shield_annotation_def passes_filters_def candidate_def

section \<open>Claims about the translator\<close>

text \<open>
  Claim C5, as amended. For every update notification (it carries the previous snapshot)
  that passes the phase and address filters and whose current annotations hold the type
  marker with the value \<^verbatim>\<open>auto\<close>, the translator hands to \<^verbatim>\<open>insert2Queue\<close> the event of the
  snapshot's address and resource version with \<^verbatim>\<open>AttachIP\<close> true, and with \<^verbatim>\<open>ShiedAdv\<close> true
  exactly when the shield marker is present with the value \<^verbatim>\<open>advanced\<close>. Whenever the call
  returns, it returns nil and that event is the new last element of one channel.
\<close>

theorem update_with_marker_attaches:
  assumes "passes_filters ob"
    and "GetAnnotations ob type_annotation = Some ''auto''"
  shows "HandleEvent PodIP2Int (Some ob) (Some old) ''update'' h =
           return_nil (insert2Queue PodIP2Int
             ((candidate ob)\<lparr>AttachIP := True,
                               ShiedAdv := (GetAnnotations ob shield_annotation = Some ''advanced'')\<rparr>)
             (logrus (LogInfo '''') h))
       \<and> (\<forall>r h'. HandleEvent PodIP2Int (Some ob) (Some old) ''update'' h = Returns r h' \<longrightarrow>
             r = None \<and>
             appended_to_lane
               ((candidate ob)\<lparr>AttachIP := True,
                                 ShiedAdv := (GetAnnotations ob shield_annotation = Some ''advanced'')\<rparr>) h h')"
  using assms dispatch_Returns [of PodIP2Int _ "LogInfo ''''" h]
  by (simp add: HandleEvent_passed)

text \<open>
  An update with the type marker alone, and one with the shield marker as well.
\<close>

theorem update_with_marker_attaches_witness:
  "HandleEvent first_lane (Some auto_pod) (Some plain_pod) ''update'' (one_lane [] Map.empty 0) =
     Returns None
       ((one_lane [\<lparr>PodIP = ''10.0.0.5'', ResourceVersion = ''100'', AttachIP = True, ShiedAdv = False\<rparr>]
           Map.empty 0)\<lparr>Trace := [LogInfo '''', LogInfo ''insert event to queue'']\<rparr>)
   \<and> HandleEvent first_lane (Some shielded_pod) (Some plain_pod) ''update'' (one_lane [] Map.empty 0) =
     Returns None
       ((one_lane [\<lparr>PodIP = ''10.0.0.5'', ResourceVersion = ''101'', AttachIP = True, ShiedAdv = True\<rparr>]
           Map.empty 0)\<lparr>Trace := [LogInfo '''', LogInfo ''insert event to queue'']\<rparr>)"
proof
  have "passes_filters auto_pod" "GetAnnotations auto_pod type_annotation = Some ''auto''"
    by (simp_all add: ev_defs auto_pod_def)
  from update_with_marker_attaches [OF this, of first_lane plain_pod "one_lane [] Map.empty 0"]
  show "HandleEvent first_lane (Some auto_pod) (Some plain_pod) ''update'' (one_lane [] Map.empty 0) =
     Returns None
       ((one_lane [\<lparr>PodIP = ''10.0.0.5'', ResourceVersion = ''100'', AttachIP = True, ShiedAdv = False\<rparr>]
           Map.empty 0)\<lparr>Trace := [LogInfo '''', LogInfo ''insert event to queue'']\<rparr>)"
    by (simp add: ev_defs auto_pod_def)
  have "passes_filters shielded_pod" "GetAnnotations shielded_pod type_annotation = Some ''auto''"
    by (simp_all add: ev_defs shielded_pod_def)
  from update_with_marker_attaches [OF this, of first_lane plain_pod "one_lane [] Map.empty 0"]
  show "HandleEvent first_lane (Some shielded_pod) (Some plain_pod) ''update'' (one_lane [] Map.empty 0) =
     Returns None
       ((one_lane [\<lparr>PodIP = ''10.0.0.5'', ResourceVersion = ''101'', AttachIP = True, ShiedAdv = True\<rparr>]
           Map.empty 0)\<lparr>Trace := [LogInfo '''', LogInfo ''insert event to queue'']\<rparr>)"
    by (simp add: ev_defs shielded_pod_def)
qed

text \<open>
  Claim C5 as written also covers create notifications. The switch of \<^verbatim>\<open>HandleEvent\<close> has
  the cases \<^verbatim>\<open>update\<close> and \<^verbatim>\<open>delete\<close> only: under any other action the annotations are not
  read and the event is dispatched with both flags false, here for the action \<^verbatim>\<open>create\<close>
  on a running pod that carries the type marker.
\<close>

theorem create_with_marker_not_attached:
  "passes_filters auto_pod \<and> GetAnnotations auto_pod type_annotation = Some ''auto'' \<and>
   HandleEvent first_lane (Some auto_pod) None ''create'' (one_lane [] Map.empty 0) =
     Returns None
       ((one_lane [\<lparr>PodIP = ''10.0.0.5'', ResourceVersion = ''100'', AttachIP = False, ShiedAdv = False\<rparr>]
           Map.empty 0)\<lparr>Trace := [LogInfo '''', LogInfo ''insert event to queue'']\<rparr>)"
  by (simp add: HandleEvent_def NestedString_def GetResourceVersion_def GetAnnotations_def auto_pod_def
     pod_def insert2Queue_def first_lane_def one_lane_def channel_capacity_def logrus_def return_nil_def
     type_annotation_def passes_filters_def)





text \<open>
  Claim C8. When the phase of the snapshot is present and is not \<^verbatim>\<open>Running\<close>, or its pod
  address is present and empty, \<^verbatim>\<open>HandleEvent\<close> returns without a call of \<^verbatim>\<open>insert2Queue\<close>:
  the state differs from the one before in its trace at most. The value returned is the
  error of the phase accessor: nil, unless the phase field is malformed, which makes
  \<^verbatim>\<open>HandleEvent\<close> return that error before it reads the address.
\<close>

theorem not_ready_discarded:
  assumes "(case NestedString (Object ob) [''status'', ''phase''] of
              (phase, exist, err) \<Rightarrow> exist \<and> phase \<noteq> ''Running'')
         \<or> (case NestedString (Object ob) [''status'', ''podIP''] of
              (podIP, exist, err) \<Rightarrow> exist \<and> length podIP = 0)"
  shows "\<exists>t. HandleEvent PodIP2Int (Some ob) oldObj action h =
              Returns (snd (snd (NestedString (Object ob) [''status'', ''phase''])))
                      (h\<lparr>Trace := Trace h @ t\<rparr>)"
proof -
  obtain phase pe perr where ph: "NestedString (Object ob) [''status'', ''phase''] = (phase, pe, perr)"
    by (cases "NestedString (Object ob) [''status'', ''phase'']") auto
  obtain podIP ie ierr where ip: "NestedString (Object ob) [''status'', ''podIP''] = (podIP, ie, ierr)"
    by (cases "NestedString (Object ob) [''status'', ''podIP'']") auto
  show ?thesis
  proof (cases "perr = None")
    case False
    then have "HandleEvent PodIP2Int (Some ob) oldObj action h = Returns perr (h\<lparr>Trace := Trace h @ []\<rparr>)"
      using ph by (simp add: HandleEvent_def)
    then show ?thesis unfolding ph by (intro exI [of _ "[]"]) simp
  next
    case True
    show ?thesis
    proof (cases "pe \<and> phase \<noteq> ''Running''")
      case True
      with \<open>perr = None\<close> have "HandleEvent PodIP2Int (Some ob) oldObj action h =
          Returns None (h\<lparr>Trace := Trace h @ [LogInfo (''phase: '' @ phase)]\<rparr>)"
        using ph by (simp add: HandleEvent_def logrus_def)
      then show ?thesis unfolding ph using \<open>perr = None\<close>
        by (intro exI [of _ "[LogInfo (''phase: '' @ phase)]"]) simp
    next
      case False
      with assms ph ip have e: "ie" "podIP = []" by auto
      with ip have "ierr = None" by (auto dest: NestedString_found)
      with e False \<open>perr = None\<close> have "HandleEvent PodIP2Int (Some ob) oldObj action h =
          Returns None (h\<lparr>Trace := Trace h @ [LogInfo ''podIP is empty'']\<rparr>)"
        using ph ip by (auto simp: HandleEvent_def logrus_def)
      then show ?thesis unfolding ph using \<open>perr = None\<close>
        by (intro exI [of _ "[LogInfo ''podIP is empty'']"]) simp
    qed
  qed
qed

text \<open>
  A pending pod, and a running pod with an empty address.
\<close>

theorem not_ready_discarded_witness:
  "HandleEvent first_lane (Some pending_pod) None ''delete'' (one_lane [] Map.empty 0) =
     Returns None ((one_lane [] Map.empty 0)\<lparr>Trace := [LogInfo ''phase: Pending'']\<rparr>)
   \<and> HandleEvent first_lane (Some empty_address_pod) (Some plain_pod) ''update'' (one_lane [] Map.empty 0) =
     Returns None ((one_lane [] Map.empty 0)\<lparr>Trace := [LogInfo ''podIP is empty'']\<rparr>)"
proof -
  have "\<exists>t. HandleEvent first_lane (Some pending_pod) None ''delete'' (one_lane [] Map.empty 0) =
              Returns (snd (snd (NestedString (Object pending_pod) [''status'', ''phase''])))
                      ((one_lane [] Map.empty 0)\<lparr>Trace := Trace (one_lane [] Map.empty 0) @ t\<rparr>)"
    by (rule not_ready_discarded) (simp add: ev_defs pending_pod_def)
  moreover
  have "\<exists>t. HandleEvent first_lane (Some empty_address_pod) (Some plain_pod) ''update'' (one_lane [] Map.empty 0) =
              Returns (snd (snd (NestedString (Object empty_address_pod) [''status'', ''phase''])))
                      ((one_lane [] Map.empty 0)\<lparr>Trace := Trace (one_lane [] Map.empty 0) @ t\<rparr>)"
    by (rule not_ready_discarded) (simp add: ev_defs empty_address_pod_def)
  ultimately show ?thesis
    by (simp add: ev_defs pending_pod_def empty_address_pod_def)
qed

text \<open>
  Claim C9. Whatever the notification, a call of \<^verbatim>\<open>HandleEvent\<close> that returns has either left
  the channels as they were or appended one event to one channel, and that event has
  \<^verbatim>\<open>ShiedAdv\<close> false whenever it has \<^verbatim>\<open>AttachIP\<close> false; a call that blocks has not changed the
  channels. So no event with \<^verbatim>\<open>AttachIP\<close> false and \<^verbatim>\<open>ShiedAdv\<close> true enters a channel.
\<close>

theorem emitted_flags_invariant:
  "case HandleEvent PodIP2Int obj oldObj action h of
     Returns r h' \<Rightarrow>
       ProcessChannel h' = ProcessChannel h \<or>
       (\<exists>ev. (\<not> AttachIP ev \<longrightarrow> \<not> ShiedAdv ev) \<and> appended_to_lane ev h h')
   | Blocks h' \<Rightarrow> ProcessChannel h' = ProcessChannel h
   | Panics \<Rightarrow> True"
proof (cases obj)
  case None
  then show ?thesis by (simp add: HandleEvent_def)
next
  case (Some ob)
  show ?thesis
  proof (cases "passes_filters ob")
    case False
    from HandleEvent_filtered [OF this, of PodIP2Int oldObj action h] Some
    show ?thesis by auto
  next
    case True
    have disp: "\<And>ev :: event. \<not> AttachIP ev \<longrightarrow> \<not> ShiedAdv ev \<Longrightarrow>
      (case return_nil (insert2Queue PodIP2Int ev (logrus (LogInfo '''') h)) of
         Returns r h' \<Rightarrow> ProcessChannel h' = ProcessChannel h \<or>
            (\<exists>ev. (\<not> AttachIP ev \<longrightarrow> \<not> ShiedAdv ev) \<and> appended_to_lane ev h h')
       | Blocks h' \<Rightarrow> ProcessChannel h' = ProcessChannel h
       | Panics \<Rightarrow> True)"
    proof -
      fix ev :: event assume inv: "\<not> AttachIP ev \<longrightarrow> \<not> ShiedAdv ev"
      show "?thesis ev"
      proof (cases "return_nil (insert2Queue PodIP2Int ev (logrus (LogInfo '''') h))")
        case (Returns r h')
        from dispatch_Returns [OF this] inv show ?thesis using Returns by auto
      next
        case Panics
        then show ?thesis by simp
      next
        case (Blocks h')
        from insert2Queue_Blocks [OF return_nil_Blocks [OF this]]
        show ?thesis using Blocks by (simp add: logrus_def)
      qed
    qed
    show ?thesis
      unfolding Some HandleEvent_passed [OF True]
      by (auto simp: candidate_def logrus_def intro!: disp [unfolded logrus_def] split: option.splits)
  qed
qed

text \<open>
  The deletion of a pod that carries the shield marker: the event queued has both flags
  false.
\<close>

theorem emitted_flags_invariant_witness:
  "HandleEvent first_lane (Some shielded_pod) None ''delete'' (one_lane [] Map.empty 0) =
     Returns None
       ((one_lane [\<lparr>PodIP = ''10.0.0.5'', ResourceVersion = ''101'', AttachIP = False, ShiedAdv = False\<rparr>]
           Map.empty 0)\<lparr>Trace := [LogInfo '''', LogInfo ''insert event to queue'']\<rparr>)
   \<and> (\<exists>ev. appended_to_lane ev (one_lane [] Map.empty 0)
          ((one_lane [\<lparr>PodIP = ''10.0.0.5'', ResourceVersion = ''101'', AttachIP = False, ShiedAdv = False\<rparr>]
              Map.empty 0)\<lparr>Trace := [LogInfo '''', LogInfo ''insert event to queue'']\<rparr>)
          \<and> \<not> AttachIP ev \<and> \<not> ShiedAdv ev)"
proof -
  let ?h = "one_lane [] Map.empty 0"
  let ?h' = "(one_lane [\<lparr>PodIP = ''10.0.0.5'', ResourceVersion = ''101'', AttachIP = False, ShiedAdv = False\<rparr>]
           Map.empty 0)\<lparr>Trace := [LogInfo '''', LogInfo ''insert event to queue'']\<rparr>"
  have run: "HandleEvent first_lane (Some shielded_pod) None ''delete'' ?h = Returns None ?h'"
    by (simp add: ev_defs shielded_pod_def)
  have "ProcessChannel ?h' \<noteq> ProcessChannel ?h"
    by (simp add: one_lane_def)
  with emitted_flags_invariant [where PodIP2Int = first_lane and obj = "Some shielded_pod"
      and oldObj = None and action = "''delete''" and h = ?h] run
  obtain ev where inv: "\<not> AttachIP ev \<longrightarrow> \<not> ShiedAdv ev" and app: "appended_to_lane ev ?h ?h'"
    by auto
  from app have "ev = \<lparr>PodIP = ''10.0.0.5'', ResourceVersion = ''101'', AttachIP = False, ShiedAdv = False\<rparr>"
    by (simp add: appended_to_lane_def one_lane_def)
  with inv app run show ?thesis by auto
qed

text \<open>
  Claim C10, as amended. A snapshot without the pod address field (not found, no error)
  is not stopped by the address check. When it also passes the phase check and is not an
  update that the annotation rule ignores or that has no previous snapshot, the translator
  hands to \<^verbatim>\<open>insert2Queue\<close> an event whose \<^verbatim>\<open>PodIP\<close> is the empty string; whenever the call
  returns, it returns nil and that event is the new last element of one channel.
\<close>

theorem absent_address_not_filtered:
  assumes absent: "snd (NestedString (Object ob) [''status'', ''podIP'']) = (False, None)"
    and phase: "case NestedString (Object ob) [''status'', ''phase''] of
                  (phase, exist, err) \<Rightarrow> err = None \<and> \<not> (exist \<and> phase \<noteq> ''Running'')"
    and emits: "action = ''update'' \<longrightarrow>
                  (\<exists>old. oldObj = Some old \<and>
                     (GetAnnotations ob type_annotation = Some ''auto'' \<or>
                      GetAnnotations old type_annotation = Some ''auto''))"
  shows "passes_filters ob \<and> PodIP (candidate ob) = '''' \<and>
         (\<exists>a s. HandleEvent PodIP2Int (Some ob) oldObj action h =
                   return_nil (insert2Queue PodIP2Int ((candidate ob)\<lparr>AttachIP := a, ShiedAdv := s\<rparr>)
                                 (logrus (LogInfo '''') h)) \<and>
                 (\<forall>r h'. HandleEvent PodIP2Int (Some ob) oldObj action h = Returns r h' \<longrightarrow>
                    r = None \<and> appended_to_lane ((candidate ob)\<lparr>AttachIP := a, ShiedAdv := s\<rparr>) h h'))"
proof (intro conjI)
  show pf: "passes_filters ob"
    using absent phase by (auto simp: passes_filters_def split: prod.splits)
  obtain s where "NestedString (Object ob) [''status'', ''podIP''] = (s, False, None)"
    using absent by (cases "NestedString (Object ob) [''status'', ''podIP'']") auto
  from NestedString_absent [OF this] this show "PodIP (candidate ob) = ''''"
    by (simp add: candidate_def)
  have c: "(candidate ob)\<lparr>AttachIP := False, ShiedAdv := False\<rparr> = candidate ob"
    by (simp add: candidate_def)
  have "\<exists>a s. HandleEvent PodIP2Int (Some ob) oldObj action h =
                   return_nil (insert2Queue PodIP2Int ((candidate ob)\<lparr>AttachIP := a, ShiedAdv := s\<rparr>)
                                 (logrus (LogInfo '''') h))"
  proof (cases "action = ''update''")
    case False
    then have "HandleEvent PodIP2Int (Some ob) oldObj action h =
                   return_nil (insert2Queue PodIP2Int ((candidate ob)\<lparr>AttachIP := False, ShiedAdv := False\<rparr>)
                                 (logrus (LogInfo '''') h))"
      by (simp add: HandleEvent_passed [OF pf] c)
    then show ?thesis by blast
  next
    case True
    with emits obtain old where old: "oldObj = Some old"
      and m: "GetAnnotations ob type_annotation = Some ''auto'' \<or>
              GetAnnotations old type_annotation = Some ''auto''" by blast
    show ?thesis
    proof (cases "GetAnnotations ob type_annotation = Some ''auto''")
      case True
      with \<open>action = ''update''\<close> old show ?thesis
        by (simp add: HandleEvent_passed [OF pf]) blast
    next
      case False
      with m \<open>action = ''update''\<close> old
      have "HandleEvent PodIP2Int (Some ob) oldObj action h =
                   return_nil (insert2Queue PodIP2Int ((candidate ob)\<lparr>AttachIP := False, ShiedAdv := False\<rparr>)
                                 (logrus (LogInfo '''') h))"
        by (simp add: HandleEvent_passed [OF pf] c)
      then show ?thesis by blast
    qed
  qed
  then obtain a s where run: "HandleEvent PodIP2Int (Some ob) oldObj action h =
                   return_nil (insert2Queue PodIP2Int ((candidate ob)\<lparr>AttachIP := a, ShiedAdv := s\<rparr>)
                                 (logrus (LogInfo '''') h))" by blast
  show "\<exists>a s. HandleEvent PodIP2Int (Some ob) oldObj action h =
                   return_nil (insert2Queue PodIP2Int ((candidate ob)\<lparr>AttachIP := a, ShiedAdv := s\<rparr>)
                                 (logrus (LogInfo '''') h)) \<and>
                 (\<forall>r h'. HandleEvent PodIP2Int (Some ob) oldObj action h = Returns r h' \<longrightarrow>
                    r = None \<and> appended_to_lane ((candidate ob)\<lparr>AttachIP := a, ShiedAdv := s\<rparr>) h h')"
    using run dispatch_Returns [of PodIP2Int "(candidate ob)\<lparr>AttachIP := a, ShiedAdv := s\<rparr>" "LogInfo ''''" h]
    by (intro exI [of _ a] exI [of _ s]) simp
qed

text \<open>
  The deletion of a running pod that has no address field.
\<close>

theorem absent_address_not_filtered_witness:
  "snd (NestedString (Object addressless_pod) [''status'', ''podIP'']) = (False, None) \<and>
   HandleEvent first_lane (Some addressless_pod) None ''delete'' (one_lane [] Map.empty 0) =
     Returns None
       ((one_lane [\<lparr>PodIP = '''', ResourceVersion = ''8'', AttachIP = False, ShiedAdv = False\<rparr>]
           Map.empty 0)\<lparr>Trace := [LogInfo '''', LogInfo ''insert event to queue'']\<rparr>)"
proof -
  have a: "snd (NestedString (Object addressless_pod) [''status'', ''podIP'']) = (False, None)"
    by (simp add: ev_defs addressless_pod_def)
  have b: "case NestedString (Object addressless_pod) [''status'', ''phase''] of
                  (phase, exist, err) \<Rightarrow> err = None \<and> \<not> (exist \<and> phase \<noteq> ''Running'')"
    by (simp add: ev_defs addressless_pod_def)
  have c: "''delete'' = ''update'' \<longrightarrow>
                  (\<exists>old. None = Some old \<and>
                     (GetAnnotations addressless_pod type_annotation = Some ''auto'' \<or>
                      GetAnnotations old type_annotation = Some ''auto''))"
    by simp
  from absent_address_not_filtered [OF a b c, of first_lane "one_lane [] Map.empty 0"] a
  show ?thesis
    by (simp add: ev_defs addressless_pod_def)
qed

text \<open>
  Claim C10 as written holds for no notification that another rule stops: a pending pod
  without the address field is discarded by the phase check, and an update of a running
  pod without the field is discarded when neither snapshot carries the type marker.
\<close>

theorem absent_address_discarded:
  "snd (NestedString (Object pending_pod) [''status'', ''podIP'']) = (False, None) \<and>
   HandleEvent first_lane (Some pending_pod) None ''delete'' (one_lane [] Map.empty 0) =
     Returns None ((one_lane [] Map.empty 0)\<lparr>Trace := [LogInfo ''phase: Pending'']\<rparr>) \<and>
   snd (NestedString (Object addressless_pod) [''status'', ''podIP'']) = (False, None) \<and>
   HandleEvent first_lane (Some addressless_pod) (Some addressless_pod) ''update'' (one_lane [] Map.empty 0) =
     Returns None ((one_lane [] Map.empty 0)\<lparr>Trace := [LogInfo '''', LogInfo ''ignore update event'']\<rparr>)"
  by (simp add: ev_defs pending_pod_def addressless_pod_def)

end
